theory Spec2Isabelle
  imports Complex_Main
begin

section \<open>Fitz-Man: the fixed-step runner of \<^verbatim>\<open>src/main.py\<close>\<close>

text \<open>
  A shallow embedding of class \<^verbatim>\<open>Game\<close> of \<^verbatim>\<open>src/main.py\<close>: the distance helpers,
  the collision check, the life-loss, level-advance and restart procedures, the event
  handler and the fixed-step \<^verbatim>\<open>update\<close>. Python integers are \<open>int\<close>; the seconds of the
  accumulator are Python floats and are idealised as \<open>real\<close>. Every \<^verbatim>\<open>raise\<close> of the
  source, explicit or implicit, is a value \<open>Inl e\<close> of the result type \<open>error + 'a\<close>.
\<close>

subsection \<open>Configuration constants\<close>

definition WINDOW_W :: int where "WINDOW_W = 540"
definition WINDOW_H :: int where "WINDOW_H = 820"
definition GRID_W :: int where "GRID_W = 28"
definition GRID_H :: int where "GRID_H = 32"

subsection \<open>Errors\<close>

datatype error = AttributeError | IndexError | ZeroDivisionError | SystemExit

subsection \<open>The data of the level engine that the runner reads and writes\<close>

text \<open>
  Module \<^verbatim>\<open>data/field.py\<close> is not part of the sources at hand. The runner touches the
  attributes below; whatever else an engine object carries (pursuer logic, random state)
  lives in the extension slot of the record \<open>game_engine\<close>, so an engine is a value of
  type \<open>'e game_engine_scheme\<close>.
\<close>

record moving_object =
  coordinateAbs :: "int \<times> int"
  coordinateRel :: "int \<times> int"
  isActive :: bool
  isCaged :: bool
  dirNext :: string

record level_object =
  name :: string
  isDestroyed :: bool

record game_engine =
  movingObjectPacman :: moving_object
  movingObjectGhosts :: "moving_object list"
  levelObjects :: "level_object list list"
  levelPelletRemaining :: int

text \<open>
  The operations of the collaborators are parameters: the constructor
  \<^verbatim>\<open>field.GameEngine()\<close>, the methods \<^verbatim>\<open>levelGenerate\<close> and \<^verbatim>\<open>loopFunction\<close> (which
  mutate the engine, so they map an engine to the engine afterwards), and
  \<^verbatim>\<open>os.path.exists(os.path.join("resource", f"level{n}.txt"))\<close> as a predicate on \<open>n\<close>.
\<close>

record 'e collaborators =
  GameEngine :: "'e game_engine_scheme"
  levelGenerate :: "int \<Rightarrow> 'e game_engine_scheme \<Rightarrow> 'e game_engine_scheme"
  loopFunction :: "'e game_engine_scheme \<Rightarrow> 'e game_engine_scheme"
  level_file_exists :: "int \<Rightarrow> bool"

subsection \<open>The session: the attributes of \<^verbatim>\<open>Game\<close> that the logic uses\<close>

datatype machine_state = TITLE | PLAY

record 'e game =
  score :: int
  lives :: int
  level :: int
  game_over :: bool
  engine :: "'e game_engine_scheme"
  engine_hz :: int
  engine_dt :: real
  engine_accum :: real
  state :: machine_state
  anim_t :: real

text \<open>The attribute values that \<^verbatim>\<open>Game.__init__\<close> sets (lines 127-138, 154, 172).\<close>

definition init :: "'e collaborators \<Rightarrow> 'e game" where
  "init env =
     (let e0 = GameEngine env;
          e1 = levelGenerate env 1 e0;
          e2 = e1\<lparr>movingObjectPacman := (movingObjectPacman e1)\<lparr>isActive := True\<rparr>\<rparr>
      in \<lparr>score = 0, lives = 2, level = 1, game_over = False, engine = e2,
          engine_hz = 10, engine_dt = 1 / 10, engine_accum = 0, state = TITLE,
          anim_t = 0\<rparr>)"

subsection \<open>Distance helpers (lines 240-247)\<close>

text \<open>
  Python's \<^verbatim>\<open>%\<close> on integers takes the sign of the divisor, as \<open>mod\<close> on \<open>int\<close> does,
  and raises \<^verbatim>\<open>ZeroDivisionError\<close> for a zero divisor, where \<open>a mod 0 = a\<close> in HOL.
\<close>

definition wrap_dist_x :: "int \<Rightarrow> int \<Rightarrow> int \<Rightarrow> error + int" where
  "wrap_dist_x a b period =
     (if period = 0 then Inl ZeroDivisionError
      else let a' = a mod period;
               b' = b mod period;
               d = \<bar>a' - b'\<bar>
           in Inr (min d (period - d)))"

definition dist_y :: "int \<Rightarrow> int \<Rightarrow> int" where
  "dist_y a b = \<bar>a - b\<bar>"

text \<open>
  Lines 283 and 284 call \<^verbatim>\<open>self._wrap_dist\<close>. Class \<^verbatim>\<open>Game\<close> defines \<^verbatim>\<open>_wrap_dist_x\<close>
  and \<^verbatim>\<open>_dist_y\<close> only, and nothing assigns an attribute of that name, so the lookup
  raises \<^verbatim>\<open>AttributeError\<close> whatever the arguments are.
\<close>

definition wrap_dist :: "int \<Rightarrow> int \<Rightarrow> int \<Rightarrow> error + int" where
  "wrap_dist a b period = Inl AttributeError"

text \<open>The local function \<^verbatim>\<open>signed_delta\<close> of lines 294-299 and 307-312.\<close>

definition signed_delta :: "int \<Rightarrow> int \<Rightarrow> int \<Rightarrow> error + int" where
  "signed_delta a b period =
     (if period = 0 then Inl ZeroDivisionError
      else let a' = a mod period;
               b' = b mod period;
               d = (a' - b') mod period
           in Inr (if d > period div 2 then d - period else d))"


subsection \<open>The collision check (lines 249-319) and life loss (lines 322-331)\<close>

definition lose_life :: "'e collaborators \<Rightarrow> 'e game \<Rightarrow> bool \<times> 'e game" where
  "lose_life env g =
     (let g1 = g\<lparr>lives := lives g - 1\<rparr>
      in if lives g1 < 0 then (True, g1\<lparr>game_over := True\<rparr>)
         else let e0 = GameEngine env;
                  e1 = levelGenerate env (level g1) e0;
                  e2 = e1\<lparr>movingObjectPacman := (movingObjectPacman e1)\<lparr>isActive := True\<rparr>\<rparr>
              in (True, g1\<lparr>engine := e2, engine_accum := 0\<rparr>))"

definition W_ABS :: int where "W_ABS = GRID_W * 4"
definition H_ABS :: int where "H_ABS = GRID_H * 4"

text \<open>
  The crossing test of lines 301-303 and 314-316: the signed deltas of the previous and
  of the current sample along one axis, and whether one is zero or their signs differ.
\<close>

definition order_flipped :: "int \<Rightarrow> int \<Rightarrow> int \<Rightarrow> int \<Rightarrow> int \<Rightarrow> error + bool" where
  "order_flipped p_prev g_prev p_now g_now period =
     (case signed_delta p_prev g_prev period of
        Inl err \<Rightarrow> Inl err
      | Inr s_prev \<Rightarrow>
          (case signed_delta p_now g_now period of
             Inl err \<Rightarrow> Inl err
           | Inr s_now \<Rightarrow> Inr (s_prev = 0 \<or> s_now = 0 \<or> (s_prev > 0) \<noteq> (s_now > 0))))"

text \<open>
  The body of the loop over the pursuers for one active, uncaged pursuer, from the
  overlap check on (lines 275-317): \<open>Inr True\<close> where the source executes
  \<^verbatim>\<open>return self._lose_life()\<close>, \<open>Inr False\<close> where it falls through to the next pursuer.
\<close>

definition ghost_catches ::
  "int \<times> int \<Rightarrow> int \<times> int \<Rightarrow> int \<times> int \<Rightarrow> int \<times> int \<Rightarrow> error + bool" where
  "ghost_catches pac pac_prev gh gh_prev =
     (case (pac, pac_prev, gh, gh_prev) of
        ((px, py), (px_prev, py_prev), (gx, gy), (gx_prev, gy_prev)) \<Rightarrow>
       (case wrap_dist_x px gx W_ABS of
          Inl err \<Rightarrow> Inl err
        | Inr dx \<Rightarrow>
            let dy = dist_y py gy
            in if dx \<le> 3 \<and> dy \<le> 3 then Inr True
               else
                (case wrap_dist px_prev gx_prev W_ABS of
                   Inl err \<Rightarrow> Inl err
                 | Inr dx_prev \<Rightarrow>
                  (case wrap_dist py_prev gy_prev H_ABS of
                     Inl err \<Rightarrow> Inl err
                   | Inr dy_prev \<Rightarrow>
                    (case (if dy \<le> 3 \<and> dy_prev \<le> 3
                           then order_flipped px_prev gx_prev px gx W_ABS
                           else Inr False) of
                       Inl err \<Rightarrow> Inl err
                     | Inr True \<Rightarrow> Inr True
                     | Inr False \<Rightarrow>
                         (if dx \<le> 3 \<and> dx_prev \<le> 3
                          then order_flipped py_prev gy_prev py gy H_ABS
                          else Inr False))))))"

text \<open>
  The loop \<^verbatim>\<open>for i, g in enumerate(self.engine.movingObjectGhosts)\<close>: \<open>i\<close> is the index of
  the head of the remaining list. \<^verbatim>\<open>ghosts_prev_abs[i]\<close> raises \<^verbatim>\<open>IndexError\<close> when the
  snapshot is shorter than the list of pursuers.
\<close>

fun check_ghosts ::
  "'e collaborators \<Rightarrow> 'e game \<Rightarrow> int \<times> int \<Rightarrow> int \<times> int \<Rightarrow> (int \<times> int) list \<Rightarrow> nat
    \<Rightarrow> moving_object list \<Rightarrow> error + (bool \<times> 'e game)" where
  "check_ghosts env g pac pac_prev_abs ghosts_prev_abs i [] = Inr (False, g)"
| "check_ghosts env g pac pac_prev_abs ghosts_prev_abs i (gh # rest) =
     (if \<not> isActive gh \<or> isCaged gh
      then check_ghosts env g pac pac_prev_abs ghosts_prev_abs (Suc i) rest
      else if length ghosts_prev_abs \<le> i then Inl IndexError
      else (case ghost_catches pac pac_prev_abs (coordinateAbs gh) (ghosts_prev_abs ! i) of
              Inl err \<Rightarrow> Inl err
            | Inr True \<Rightarrow> Inr (lose_life env g)
            | Inr False \<Rightarrow> check_ghosts env g pac pac_prev_abs ghosts_prev_abs (Suc i) rest))"

definition check_ghost_collision ::
  "'e collaborators \<Rightarrow> 'e game \<Rightarrow> int \<times> int \<Rightarrow> (int \<times> int) list
    \<Rightarrow> error + (bool \<times> 'e game)" where
  "check_ghost_collision env g pac_prev_abs ghosts_prev_abs =
     check_ghosts env g (coordinateAbs (movingObjectPacman (engine g))) pac_prev_abs
       ghosts_prev_abs 0 (movingObjectGhosts (engine g))"

subsection \<open>Level advance (lines 370-379) and restart (lines 382-394)\<close>

definition advance_level :: "'e collaborators \<Rightarrow> 'e game \<Rightarrow> 'e game" where
  "advance_level env g =
     (let g1 = g\<lparr>level := level g + 1\<rparr>;
          g2 = (if \<not> level_file_exists env (level g1) then g1\<lparr>level := 1\<rparr> else g1);
          e0 = (GameEngine env)\<lparr>levelPelletRemaining := 0\<rparr>;
          e1 = levelGenerate env (level g2) e0;
          e2 = e1\<lparr>movingObjectPacman := (movingObjectPacman e1)\<lparr>isActive := True\<rparr>\<rparr>
      in g2\<lparr>engine := e2, engine_accum := 0\<rparr>)"

text \<open>
  \<^verbatim>\<open>hasattr(self, "engine_accum")\<close> in line 393 holds for every \<^verbatim>\<open>Game\<close> whose
  constructor has returned, which is every value of the record.
\<close>

definition reset_game :: "'e collaborators \<Rightarrow> 'e game \<Rightarrow> 'e game" where
  "reset_game env g =
     (let g1 = g\<lparr>score := 0, lives := 2, level := 1, game_over := False\<rparr>;
          e0 = GameEngine env;
          e1 = levelGenerate env (level g1) e0;
          e2 = e1\<lparr>movingObjectPacman := (movingObjectPacman e1)\<lparr>isActive := True\<rparr>\<rparr>
      in g1\<lparr>engine := e2, engine_accum := 0\<rparr>)"


subsection \<open>Events and the event handler (lines 179-238)\<close>

text \<open>
  A \<^verbatim>\<open>pygame\<close> event by its \<^verbatim>\<open>type\<close>, with the attributes the handler reads: the key of
  a \<^verbatim>\<open>KEYDOWN\<close>, the \<^verbatim>\<open>pos\<close> of a mouse-button event (\<open>None\<close> when the event has no
  such attribute, which the handler tests with \<^verbatim>\<open>hasattr\<close>), and the normalised \<^verbatim>\<open>x\<close>
  and \<^verbatim>\<open>y\<close> of a \<^verbatim>\<open>FINGERDOWN\<close>. Every other event type is \<open>OTHER_EVENT\<close>.
\<close>

datatype key =
  K_ESCAPE | K_RETURN | K_SPACE | K_LEFT | K_a | K_RIGHT | K_d | K_UP | K_w | K_DOWN | K_s
  | K_OTHER

datatype event =
  KEYDOWN key
  | MOUSEBUTTONDOWN "(int \<times> int) option"
  | MOUSEBUTTONUP "(int \<times> int) option"
  | FINGERDOWN real real
  | OTHER_EVENT

definition KEY_TO_DIR :: "key \<rightharpoonup> string" where
  "KEY_TO_DIR =
     [K_LEFT \<mapsto> ''Left'', K_a \<mapsto> ''Left'', K_RIGHT \<mapsto> ''Right'', K_d \<mapsto> ''Right'',
      K_UP \<mapsto> ''Up'', K_w \<mapsto> ''Up'', K_DOWN \<mapsto> ''Down'', K_s \<mapsto> ''Down'']"

text \<open>
  \<^verbatim>\<open>pygame.Rect(left, top, width, height)\<close> and its \<^verbatim>\<open>collidepoint\<close>: the right and the
  bottom edge are outside.
\<close>

datatype rect = Rect int int int int

fun collidepoint :: "rect \<Rightarrow> int \<times> int \<Rightarrow> bool" where
  "collidepoint (Rect l t w h) (x, y) = (l \<le> x \<and> x < l + w \<and> t \<le> y \<and> y < t + h)"

text \<open>The four rectangles of \<^verbatim>\<open>DPad.__init__\<close> (lines 57-64) and \<^verbatim>\<open>dir_for_pos\<close>.\<close>

definition dpad_size :: int where "dpad_size = 54"
definition dpad_pad :: int where "dpad_pad = 12"
definition dpad_base_y :: int where
  "dpad_base_y = WINDOW_H - (dpad_size * 3 + dpad_pad * 2) - 30"
definition dpad_base_x :: int where
  "dpad_base_x = (WINDOW_W - (dpad_size * 3)) div 2"
definition dpad_up :: rect where
  "dpad_up = Rect (dpad_base_x + dpad_size) dpad_base_y dpad_size dpad_size"
definition dpad_left :: rect where
  "dpad_left = Rect dpad_base_x (dpad_base_y + dpad_size) dpad_size dpad_size"
definition dpad_right :: rect where
  "dpad_right = Rect (dpad_base_x + dpad_size * 2) (dpad_base_y + dpad_size) dpad_size dpad_size"
definition dpad_down :: rect where
  "dpad_down = Rect (dpad_base_x + dpad_size) (dpad_base_y + dpad_size * 2) dpad_size dpad_size"

definition dir_for_pos :: "int \<times> int \<Rightarrow> string option" where
  "dir_for_pos pos =
     (if collidepoint dpad_up pos then Some ''Up''
      else if collidepoint dpad_down pos then Some ''Down''
      else if collidepoint dpad_left pos then Some ''Left''
      else if collidepoint dpad_right pos then Some ''Right''
      else None)"

text \<open>
  The start button of line 156; \<^verbatim>\<open>int(WINDOW_H * 0.64)\<close> is \<open>524\<close>. Python's \<^verbatim>\<open>int\<close> on
  a float truncates towards zero.
\<close>

definition start_btn :: rect where
  "start_btn = Rect ((WINDOW_W - 180) div 2) 524 180 56"

definition py_int :: "real \<Rightarrow> int" where
  "py_int r = (if 0 \<le> r then \<lfloor>r\<rfloor> else \<lceil>r\<rceil>)"

text \<open>Lines 184-201: the session is over.\<close>

fun handle_event_game_over :: "'e collaborators \<Rightarrow> 'e game \<Rightarrow> event \<Rightarrow> 'e game" where
  "handle_event_game_over env g (KEYDOWN k) =
     (if k = K_RETURN \<or> k = K_SPACE then (reset_game env g)\<lparr>state := TITLE\<rparr> else g)"
| "handle_event_game_over env g (MOUSEBUTTONDOWN pos) =
     (if pos \<noteq> None then (reset_game env g)\<lparr>state := TITLE\<rparr> else g)"
| "handle_event_game_over env g (MOUSEBUTTONUP pos) =
     (if pos \<noteq> None then (reset_game env g)\<lparr>state := TITLE\<rparr> else g)"
| "handle_event_game_over env g (FINGERDOWN x y) = (reset_game env g)\<lparr>state := TITLE\<rparr>"
| "handle_event_game_over env g OTHER_EVENT = g"

text \<open>Lines 204-225: the title screen.\<close>

fun handle_event_title :: "'e game \<Rightarrow> event \<Rightarrow> 'e game" where
  "handle_event_title g (KEYDOWN k) =
     (if k = K_RETURN \<or> k = K_SPACE then g\<lparr>state := PLAY\<rparr> else g)"
| "handle_event_title g (MOUSEBUTTONDOWN pos) =
     (case pos of None \<Rightarrow> g
      | Some p \<Rightarrow> if collidepoint start_btn p then g\<lparr>state := PLAY\<rparr> else g)"
| "handle_event_title g (MOUSEBUTTONUP pos) =
     (case pos of None \<Rightarrow> g
      | Some p \<Rightarrow> if collidepoint start_btn p then g\<lparr>state := PLAY\<rparr> else g)"
| "handle_event_title g (FINGERDOWN x y) =
     (let mx = py_int (x * real_of_int WINDOW_W);
          my = py_int (y * real_of_int WINDOW_H)
      in if collidepoint start_btn (mx, my) then g\<lparr>state := PLAY\<rparr> else g)"
| "handle_event_title g OTHER_EVENT = g"

text \<open>
  Lines 228-238: play. \<^verbatim>\<open>e.pos\<close> in line 236 is read without a test, so a
  \<^verbatim>\<open>MOUSEBUTTONDOWN\<close> without the attribute raises.
\<close>

definition set_dirNext :: "string \<Rightarrow> 'e game \<Rightarrow> 'e game" where
  "set_dirNext d g =
     g\<lparr>engine := (engine g)\<lparr>movingObjectPacman :=
          (movingObjectPacman (engine g))\<lparr>dirNext := d\<rparr>\<rparr>\<rparr>"

fun handle_event_play :: "'e game \<Rightarrow> event \<Rightarrow> error + 'e game" where
  "handle_event_play g (KEYDOWN k) =
     (if k = K_ESCAPE then Inl SystemExit
      else (case KEY_TO_DIR k of None \<Rightarrow> Inr g | Some d \<Rightarrow> Inr (set_dirNext d g)))"
| "handle_event_play g (MOUSEBUTTONDOWN pos) =
     (case pos of None \<Rightarrow> Inl AttributeError
      | Some p \<Rightarrow> (case dir_for_pos p of None \<Rightarrow> Inr g | Some d \<Rightarrow> Inr (set_dirNext d g)))"
| "handle_event_play g (MOUSEBUTTONUP pos) = Inr g"
| "handle_event_play g (FINGERDOWN x y) = Inr g"
| "handle_event_play g OTHER_EVENT = Inr g"

definition handle_event :: "'e collaborators \<Rightarrow> 'e game \<Rightarrow> event \<Rightarrow> error + 'e game" where
  "handle_event env g e =
     (if e = KEYDOWN K_ESCAPE then Inl SystemExit
      else if game_over g then Inr (handle_event_game_over env g e)
      else if state g = TITLE then Inr (handle_event_title g e)
      else handle_event_play g e)"

subsection \<open>The fixed-step update (lines 334-368)\<close>

text \<open>
  Lines 355-365, pellet eating. The guard of line 359 keeps both indices inside
  \<open>0 ..< GRID_W\<close> and \<open>0 ..< GRID_H\<close>; a grid with fewer columns or a shorter column
  raises \<^verbatim>\<open>IndexError\<close>. Each cell of the grid is an object of its own, so the two
  assignments to \<^verbatim>\<open>obj\<close> change that one cell.
\<close>

definition update_eat_pellets :: "'e game \<Rightarrow> error + 'e game" where
  "update_eat_pellets g =
     (case coordinateAbs (movingObjectPacman (engine g)) of (ax, ay) \<Rightarrow>
        if ax mod 4 = 0 \<and> ay mod 4 = 0 then
          (case coordinateRel (movingObjectPacman (engine g)) of (rx, ry) \<Rightarrow>
             if 0 \<le> rx \<and> rx < GRID_W \<and> 0 \<le> ry \<and> ry < GRID_H then
               (if length (levelObjects (engine g)) \<le> nat rx then Inl IndexError
                else let col = levelObjects (engine g) ! nat rx
                     in if length col \<le> nat ry then Inl IndexError
                        else let obj = col ! nat ry
                             in if name obj = ''pellet'' \<and> \<not> isDestroyed obj then
                                  let obj' = obj\<lparr>isDestroyed := True, name := ''empty''\<rparr>;
                                      eng = engine g;
                                      eng' = eng\<lparr>levelObjects :=
                                                   (levelObjects eng)[nat rx := col[nat ry := obj']],
                                                 levelPelletRemaining :=
                                                   levelPelletRemaining eng - 1\<rparr>
                                  in Inr (g\<lparr>engine := eng', score := score g + 10\<rparr>)
                                else Inr g)
             else Inr g)
        else Inr g)"

text \<open>
  One pass through the body of the \<^verbatim>\<open>while\<close> loop (lines 346-368). The result is
  \<open>Inr (True, g')\<close> where the source executes \<^verbatim>\<open>return\<close> and \<open>Inr (False, g')\<close> where
  control reaches the end of the body. The statement \<^verbatim>\<open>if
  self.engine.levelPelletRemaining <= 0:\<close> of line 368 is the last line of the method
  and has no statement under it (Python rejects an \<^verbatim>\<open>if\<close> without a block; the model
  reads it with an empty one): both of its branches leave the session as it is. Nothing
  in the class calls \<^verbatim>\<open>_advance_level\<close>. The body does not assign \<^verbatim>\<open>steps\<close> or
  \<^verbatim>\<open>self.engine_accum\<close>.
\<close>

definition update_loop_body :: "'e collaborators \<Rightarrow> 'e game \<Rightarrow> error + (bool \<times> 'e game)" where
  "update_loop_body env g =
     (let pac_prev = coordinateAbs (movingObjectPacman (engine g));
          ghosts_prev = map coordinateAbs (movingObjectGhosts (engine g));
          g1 = g\<lparr>engine := loopFunction env (engine g)\<rparr>
      in case check_ghost_collision env g1 pac_prev ghosts_prev of
           Inl err \<Rightarrow> Inl err
         | Inr (True, g2) \<Rightarrow> Inr (True, g2)
         | Inr (False, g2) \<Rightarrow>
             (case update_eat_pellets g2 of
                Inl err \<Rightarrow> Inl err
              | Inr g3 \<Rightarrow>
                  Inr (False, if levelPelletRemaining (engine g3) \<le> 0 then g3 else g3)))"

definition max_steps :: int where "max_steps = 5"

text \<open>
  The \<^verbatim>\<open>while\<close> loop of line 345. It need not end, so it is a partial function: the
  value \<open>None\<close> says that the loop runs forever.
\<close>

partial_function (option) update_loop ::
  "'e collaborators \<Rightarrow> 'e game \<Rightarrow> int \<Rightarrow> (error + 'e game) option" where
  "update_loop env g steps =
     (if engine_accum g \<ge> engine_dt g \<and> steps < max_steps then
        (case update_loop_body env g of
           Inl err \<Rightarrow> Some (Inl err)
         | Inr (returned, g') \<Rightarrow>
             if returned then Some (Inr g') else update_loop env g' steps)
      else Some (Inr g))"

definition update :: "'e collaborators \<Rightarrow> 'e game \<Rightarrow> real \<Rightarrow> (error + 'e game) option" where
  "update env g dt =
     (if game_over g \<or> state g \<noteq> PLAY then Some (Inr g)
      else let g1 = g\<lparr>anim_t := anim_t g + dt\<rparr>;
               g2 = g1\<lparr>engine_accum := engine_accum g1 + dt\<rparr>
           in update_loop env g2 0)"


subsection \<open>The frame loop (lines 449-470)\<close>

text \<open>
  \<^verbatim>\<open>main\<close> builds one \<^verbatim>\<open>Game\<close> and then, frame after frame, passes the pending events to
  \<^verbatim>\<open>handle_event\<close> and calls \<^verbatim>\<open>update\<close>. A session is reachable when it is the initial
  one or comes from a reachable one by a call of either method that returns. An
  exception other than \<^verbatim>\<open>SystemExit\<close> ends the process, and \<^verbatim>\<open>SystemExit\<close> is raised
  before the handler has changed anything.
\<close>

inductive reachable :: "'e collaborators \<Rightarrow> 'e game \<Rightarrow> bool" for env :: "'e collaborators" where
  start: "reachable env (init env)"
| event: "reachable env g \<Longrightarrow> handle_event env g e = Inr g' \<Longrightarrow> reachable env g'"
| frame: "reachable env g \<Longrightarrow> update env g dt = Some (Inr g') \<Longrightarrow> reachable env g'"

subsection \<open>Small concrete engines for the examples\<close>

definition mover :: "int \<times> int \<Rightarrow> bool \<Rightarrow> bool \<Rightarrow> moving_object" where
  "mover a active caged =
     \<lparr>coordinateAbs = a, coordinateRel = (fst a div 4, snd a div 4), isActive = active,
      isCaged = caged, dirNext = ''Right''\<rparr>"

definition pellet_board :: "level_object list list" where
  "pellet_board =
     replicate (nat GRID_W) (replicate (nat GRID_H) \<lparr>name = ''pellet'', isDestroyed = False\<rparr>)"

definition toy_engine :: "int \<times> int \<Rightarrow> moving_object list \<Rightarrow> int \<Rightarrow> game_engine" where
  "toy_engine pac ghosts n =
     \<lparr>movingObjectPacman = mover pac False False, movingObjectGhosts = ghosts,
      levelObjects = pellet_board, levelPelletRemaining = n\<rparr>"

text \<open>
  Collaborators that never move anything: every fresh level is the engine \<open>e\<close>, a tick
  leaves the engine as it is, and the level files 1 and 2 exist.
\<close>

definition toy_env :: "game_engine \<Rightarrow> unit collaborators" where
  "toy_env e =
     \<lparr>GameEngine = e, levelGenerate = (\<lambda>lvl eng. eng), loopFunction = (\<lambda>eng. eng),
      level_file_exists = (\<lambda>n. n \<le> 2)\<rparr>"

definition playing :: "game_engine \<Rightarrow> unit game" where
  "playing e = (init (toy_env e))\<lparr>state := PLAY\<rparr>"

definition swap_engine :: game_engine where
  "swap_engine = toy_engine (0, 0) [mover (4, 0) True False] 10"

definition overlap_engine :: game_engine where
  "overlap_engine = toy_engine (0, 0) [mover (0, 0) True False] 10"

definition queue_engine :: game_engine where
  "queue_engine = toy_engine (0, 0) [mover (40, 0) True False, mover (0, 0) True False] 10"

definition last_pellet_engine :: game_engine where
  "last_pellet_engine = toy_engine (0, 0) [] 1"

definition idle_engine :: game_engine where
  "idle_engine = toy_engine (1, 1) [] 10"

text \<open>
  The session that \<open>playing last_pellet_engine\<close> becomes when the player eats the pellet
  under it; a session that is over; the session of \<open>overlap_engine\<close> with \<open>n\<close> lives at
  animation time \<open>t\<close>; and that session after its last life is lost.
\<close>

definition cleared :: "unit game" where
  "cleared = (playing last_pellet_engine)
     \<lparr>engine := (engine (playing last_pellet_engine))
         \<lparr>levelObjects :=
            pellet_board[0 := (pellet_board ! 0)[0 := \<lparr>name = ''empty'', isDestroyed = True\<rparr>]],
          levelPelletRemaining := 0\<rparr>,
      score := 10\<rparr>"

definition over :: "unit game" where
  "over = (playing overlap_engine)\<lparr>lives := - 1, game_over := True, score := 70, level := 2\<rparr>"

definition hurt :: "int \<Rightarrow> real \<Rightarrow> unit game" where
  "hurt n t = (playing overlap_engine)\<lparr>lives := n, anim_t := t\<rparr>"

definition dead :: "unit game" where
  "dead = (playing overlap_engine)
     \<lparr>lives := - 1, game_over := True, anim_t := 3 / 10, engine_accum := 1 / 10\<rparr>"

section \<open>Properties\<close>

subsection \<open>Distance helpers\<close>

lemma ring_arc_bounds:
  fixes x y p :: int
  assumes "0 \<le> x" "x < p" "0 \<le> y" "y < p"
  shows "0 \<le> min \<bar>x - y\<bar> (p - \<bar>x - y\<bar>)"
    and "2 * min \<bar>x - y\<bar> (p - \<bar>x - y\<bar>) \<le> p"
  using assms by (auto simp: min_def abs_if)

lemma wrap_dist_x_value:
  "period \<noteq> 0 \<Longrightarrow>
   wrap_dist_x a b period =
     Inr (min \<bar>a mod period - b mod period\<bar> (period - \<bar>a mod period - b mod period\<bar>))"
  by (simp add: wrap_dist_x_def Let_def)

text \<open>
  Claim C9. On a ring of period \<open>p\<close> (a positive integer) the wrap distance of any two
  integers \<open>a\<close> and \<open>b\<close> is defined, is the same in both orders, is not negative and is
  at most half the period, both as \<open>2 * d \<le> p\<close> and against the integer quotient
  \<open>p div 2\<close>.
\<close>

theorem wrap_dist_x_symmetric_bounded:
  assumes "0 < p"
  shows "\<exists>d. wrap_dist_x a b p = Inr d \<and> wrap_dist_x b a p = Inr d
             \<and> 0 \<le> d \<and> 2 * d \<le> p \<and> d \<le> p div 2"
proof -
  define d where "d = min \<bar>a mod p - b mod p\<bar> (p - \<bar>a mod p - b mod p\<bar>)"
  have ne: "p \<noteq> 0" using assms by simp
  have a: "0 \<le> a mod p" "a mod p < p" using assms by simp_all
  have b: "0 \<le> b mod p" "b mod p < p" using assms by simp_all
  have 1: "wrap_dist_x a b p = Inr d"
    using ne by (simp add: wrap_dist_x_value d_def)
  have "\<bar>b mod p - a mod p\<bar> = \<bar>a mod p - b mod p\<bar>" by simp
  then have 2: "wrap_dist_x b a p = Inr d"
    using ne by (simp add: wrap_dist_x_value d_def)
  have 3: "0 \<le> d" unfolding d_def using a b by (rule ring_arc_bounds)
  have 4: "2 * d \<le> p" unfolding d_def using a b by (rule ring_arc_bounds)
  then have 5: "d \<le> p div 2" by linarith
  from 1 2 3 4 5 show ?thesis by blast
qed

theorem wrap_dist_x_symmetric_bounded_witness:
  "(0::int) < 112 \<and> wrap_dist_x 1 111 112 = Inr 2 \<and> wrap_dist_x 111 1 112 = Inr 2
   \<and> (0::int) \<le> 2 \<and> 2 * 2 \<le> (112::int) \<and> (2::int) \<le> 112 div 2"
proof -
  have h: "(0::int) < 112" by simp
  from wrap_dist_x_symmetric_bounded [OF h, of 1 111]
  show ?thesis by (simp add: wrap_dist_x_def Let_def)
qed

subsection \<open>The collision check\<close>

lemmas toy_defs = toy_env_def toy_engine_def mover_def playing_def init_def

lemma ghost_catches_overlap:
  assumes "wrap_dist_x px gx W_ABS = Inr dx" and "dx \<le> 3" and "dist_y py gy \<le> 3"
  shows "ghost_catches (px, py) pac_prev (gx, gy) gh_prev = Inr True"
  using assms by (cases pac_prev; cases gh_prev) (simp add: ghost_catches_def)

text \<open>
  Past the overlap test the next statement is the call of the missing method, so a
  pursuer that does not overlap ends the check with the exception.
\<close>

lemma ghost_catches_no_overlap:
  assumes "wrap_dist_x px gx W_ABS = Inr dx" and "\<not> (dx \<le> 3 \<and> dist_y py gy \<le> 3)"
  shows "ghost_catches (px, py) pac_prev (gx, gy) gh_prev = Inl AttributeError"
  using assms
  by (cases pac_prev; cases gh_prev) (auto simp add: ghost_catches_def wrap_dist_def)

lemma ghost_catches_not_False: "ghost_catches pac pac_prev gh gh_prev \<noteq> Inr False"
proof (cases pac; cases gh)
  fix px py gx gy
  assume eq: "pac = (px, py)" "gh = (gx, gy)"
  have "W_ABS \<noteq> 0" by (simp add: W_ABS_def GRID_W_def)
  then obtain dx where dx: "wrap_dist_x px gx W_ABS = Inr dx"
    by (simp add: wrap_dist_x_def Let_def)
  show ?thesis
  proof (cases "dx \<le> 3 \<and> dist_y py gy \<le> 3")
    case True
    with dx eq show ?thesis by (simp add: ghost_catches_overlap)
  next
    case False
    with dx eq show ?thesis by (simp add: ghost_catches_no_overlap)
  qed
qed

lemma check_ghosts_result:
  "check_ghosts env g pac pp gp i ghs = Inr (b, g') \<Longrightarrow>
     (b \<longrightarrow> g' = snd (lose_life env g)) \<and> (\<not> b \<longrightarrow> g' = g)"
proof (induction ghs arbitrary: i)
  case Nil
  then show ?case by simp
next
  case (Cons gh rest)
  show ?case
  proof (cases "\<not> isActive gh \<or> isCaged gh")
    case True
    with Cons.IH [of "Suc i"] Cons.prems show ?thesis by simp
  next
    case False
    with Cons.prems ghost_catches_not_False [of pac pp "coordinateAbs gh" "gp ! i"]
    show ?thesis
      by (auto simp: lose_life_def Let_def split: if_splits sum.splits bool.splits)
  qed
qed

text \<open>
  Claim C1, at an input where the claim promises \<open>True\<close>. Player and pursuer swap places
  on one row between the samples: the player goes from \<open>(4, 0)\<close> to \<open>(0, 0)\<close>, the one
  active, uncaged pursuer from \<open>(0, 0)\<close> to \<open>(4, 0)\<close>. The wrap distance now is 4, so the
  overlap test does not trigger; both vertical distances are 0; the signed horizontal
  delta goes from 4 to -4. The check does not return: it raises \<^verbatim>\<open>AttributeError\<close> at
  the call \<^verbatim>\<open>self._wrap_dist\<close> of line 283.
\<close>

theorem tunneling_swap_raises:
  "wrap_dist_x 0 4 W_ABS = Inr 4 \<and> dist_y 0 0 = 0
   \<and> signed_delta 4 0 W_ABS = Inr 4 \<and> signed_delta 0 4 W_ABS = Inr (- 4)
   \<and> check_ghost_collision (toy_env swap_engine) (playing swap_engine) (4, 0) [(0, 0)]
       = Inl AttributeError"
  by (simp add: swap_engine_def toy_defs check_ghost_collision_def
        wrap_dist_x_def dist_y_def signed_delta_def W_ABS_def GRID_W_def
        ghost_catches_no_overlap [where dx = 4])

text \<open>
  Claim C4, at an input where the claim promises \<open>True\<close>. Two active, uncaged pursuers:
  the first at \<open>(40, 0)\<close>, far from the player at \<open>(0, 0)\<close>, the second on the player's
  position. The loop reaches the first pursuer first and raises \<^verbatim>\<open>AttributeError\<close> at
  line 283 before it looks at the second.
\<close>

theorem overlap_behind_other_pursuer_raises:
  "wrap_dist_x 0 0 W_ABS = Inr 0 \<and> dist_y 0 0 = 0
   \<and> movingObjectGhosts (engine (playing queue_engine))
       = [mover (40, 0) True False, mover (0, 0) True False]
   \<and> check_ghost_collision (toy_env queue_engine) (playing queue_engine) (0, 0)
       [(40, 0), (0, 0)] = Inl AttributeError"
  by (simp add: queue_engine_def toy_defs check_ghost_collision_def
        wrap_dist_x_def dist_y_def W_ABS_def GRID_W_def
        ghost_catches_no_overlap [where dx = 40])

text \<open>
  What does hold of the overlap test: when the first pursuer that is active and uncaged
  overlaps the player at the current sample, the check returns \<open>True\<close>, whatever the
  previous sample was.
\<close>

lemma check_ghosts_first_overlap:
  assumes "isActive gh" and "\<not> isCaged gh" and "i < length ghosts_prev_abs"
    and "coordinateAbs gh = (gx, gy)"
    and "wrap_dist_x px gx W_ABS = Inr dx" and "dx \<le> 3" and "dist_y py gy \<le> 3"
  shows "check_ghosts env g (px, py) pac_prev_abs ghosts_prev_abs i (gh # rest)
           = Inr (lose_life env g)"
  using assms by (simp add: ghost_catches_overlap [where dx = dx])

text \<open>
  Conversely, the check returns \<open>True\<close> only for an overlap at the current sample: the
  crossing tests of lines 291-317 never decide a call.
\<close>

lemma check_ghosts_True_overlap:
  assumes "check_ghosts env g (px, py) pp gp i ghs = Inr (True, g')"
  shows "\<exists>gh \<in> set ghs. isActive gh \<and> \<not> isCaged gh
           \<and> (\<exists>dx. wrap_dist_x px (fst (coordinateAbs gh)) W_ABS = Inr dx \<and> dx \<le> 3)
           \<and> dist_y py (snd (coordinateAbs gh)) \<le> 3"
  using assms
proof (induction ghs arbitrary: i)
  case Nil
  then show ?case by simp
next
  case (Cons gh rest)
  show ?case
  proof (cases "\<not> isActive gh \<or> isCaged gh")
    case True
    with Cons.prems have "check_ghosts env g (px, py) pp gp (Suc i) rest = Inr (True, g')"
      by simp
    from Cons.IH [OF this] show ?thesis by auto
  next
    case False
    obtain gx gy where c: "coordinateAbs gh = (gx, gy)" by (cases "coordinateAbs gh")
    have "W_ABS \<noteq> 0" by (simp add: W_ABS_def GRID_W_def)
    then obtain dx where dx: "wrap_dist_x px gx W_ABS = Inr dx"
      by (simp add: wrap_dist_x_def Let_def)
    show ?thesis
    proof (cases "dx \<le> 3 \<and> dist_y py gy \<le> 3")
      case True
      with False c dx show ?thesis by auto
    next
      case no: False
      from ghost_catches_no_overlap [OF dx no] c
      have "ghost_catches (px, py) pp (coordinateAbs gh) (gp ! i) = Inl AttributeError" by simp
      with False Cons.prems show ?thesis by (simp split: if_splits)
    qed
  qed
qed

text \<open>
  Claim C3, as stated, fails: with a pursuer on the player's position the check itself
  runs the life-loss procedure, and the session it leaves has one life fewer.
\<close>

theorem check_ghost_collision_changes_session:
  "check_ghost_collision (toy_env overlap_engine) (playing overlap_engine) (0, 0) [(0, 0)]
     = Inr (True, snd (lose_life (toy_env overlap_engine) (playing overlap_engine)))
   \<and> lives (playing overlap_engine) = 2
   \<and> lives (snd (lose_life (toy_env overlap_engine) (playing overlap_engine))) = 1"
  by (simp add: overlap_engine_def toy_defs check_ghost_collision_def
        wrap_dist_x_def dist_y_def W_ABS_def GRID_W_def lose_life_def
        ghost_catches_overlap [where dx = 0])

text \<open>
  Claim C3, amended. Whenever the collision check returns, it returns a boolean; when
  the boolean is \<open>False\<close> the session is unchanged, and when it is \<open>True\<close> the session is
  the one that the life-loss procedure leaves: the check performs the terminal action
  itself, through \<^verbatim>\<open>return self._lose_life()\<close>, and the caller only stops the tick loop.
\<close>

theorem check_ghost_collision_effect:
  assumes "check_ghost_collision env g pac_prev_abs ghosts_prev_abs = Inr (b, g')"
  shows "(b \<longrightarrow> g' = snd (lose_life env g)) \<and> (\<not> b \<longrightarrow> g' = g)"
  using assms unfolding check_ghost_collision_def by (rule check_ghosts_result)

theorem check_ghost_collision_effect_witness:
  "check_ghost_collision (toy_env overlap_engine) (playing overlap_engine) (0, 0) [(0, 0)]
     = Inr (True, (playing overlap_engine)
                    \<lparr>lives := 1,
                     engine := overlap_engine\<lparr>movingObjectPacman := mover (0, 0) True False\<rparr>,
                     engine_accum := 0\<rparr>)
   \<and> (playing overlap_engine)
        \<lparr>lives := 1,
         engine := overlap_engine\<lparr>movingObjectPacman := mover (0, 0) True False\<rparr>,
         engine_accum := 0\<rparr>
       = snd (lose_life (toy_env overlap_engine) (playing overlap_engine))
   \<and> check_ghost_collision (toy_env idle_engine) (playing idle_engine) (1, 1) []
       = Inr (False, playing idle_engine)"
proof -
  have hit: "check_ghost_collision (toy_env overlap_engine) (playing overlap_engine) (0, 0)
      [(0, 0)]
     = Inr (True, (playing overlap_engine)
                    \<lparr>lives := 1,
                     engine := overlap_engine\<lparr>movingObjectPacman := mover (0, 0) True False\<rparr>,
                     engine_accum := 0\<rparr>)"
    by (simp add: overlap_engine_def toy_defs check_ghost_collision_def
          wrap_dist_x_def dist_y_def W_ABS_def GRID_W_def lose_life_def
          ghost_catches_overlap [where dx = 0])
  have miss: "check_ghost_collision (toy_env idle_engine) (playing idle_engine) (1, 1) []
       = Inr (False, playing idle_engine)"
    by (simp add: idle_engine_def toy_defs check_ghost_collision_def)
  from check_ghost_collision_effect [OF hit] check_ghost_collision_effect [OF miss] hit miss
  show ?thesis by simp
qed

subsection \<open>Life loss\<close>

text \<open>
  Claim C5. The life-loss procedure, which a collision invokes, returns \<open>True\<close>. From
  \<open>lives = 0\<close> it leaves \<open>lives = -1\<close> and the game-over flag set, and nothing else
  changes: the level state (the engine) stays. From \<open>lives = 1\<close> it leaves \<open>lives = 0\<close>,
  installs a fresh engine generated for the same level index with the player active, and
  sets the time budget to 0; the game-over flag and the machine state stay as they were.
\<close>

theorem lose_life_cases:
  "(lives g = 0 \<longrightarrow> lose_life env g = (True, g\<lparr>lives := - 1, game_over := True\<rparr>))
   \<and> (lives g = 1 \<longrightarrow>
        lose_life env g =
          (True, g\<lparr>lives := 0,
                   engine := (levelGenerate env (level g) (GameEngine env))
                     \<lparr>movingObjectPacman :=
                        (movingObjectPacman (levelGenerate env (level g) (GameEngine env)))
                          \<lparr>isActive := True\<rparr>\<rparr>,
                   engine_accum := 0\<rparr>))"
  by (simp add: lose_life_def Let_def)

theorem lose_life_cases_witness:
  "lives ((playing overlap_engine)\<lparr>lives := 0\<rparr>) = 0
   \<and> lose_life (toy_env overlap_engine) ((playing overlap_engine)\<lparr>lives := 0\<rparr>)
       = (True, (playing overlap_engine)\<lparr>lives := - 1, game_over := True\<rparr>)
   \<and> lives ((playing overlap_engine)\<lparr>lives := 1, engine_accum := 1 / 2\<rparr>) = 1
   \<and> lose_life (toy_env overlap_engine)
         ((playing overlap_engine)\<lparr>lives := 1, engine_accum := 1 / 2\<rparr>)
       = (True, (playing overlap_engine)
                  \<lparr>lives := 0,
                   engine := overlap_engine\<lparr>movingObjectPacman := mover (0, 0) True False\<rparr>,
                   engine_accum := 0\<rparr>)"
  using lose_life_cases [of "(playing overlap_engine)\<lparr>lives := 0\<rparr>" "toy_env overlap_engine"]
    lose_life_cases [of "(playing overlap_engine)\<lparr>lives := 1, engine_accum := 1 / 2\<rparr>"
      "toy_env overlap_engine"]
  by (simp add: overlap_engine_def toy_defs)

subsection \<open>Pellet eating\<close>

lemma update_eat_pellets_skip:
  assumes "coordinateAbs (movingObjectPacman (engine g)) = (ax, ay)"
    and "coordinateRel (movingObjectPacman (engine g)) = (rx, ry)"
    and "\<not> (ax mod 4 = 0 \<and> ay mod 4 = 0 \<and> 0 \<le> rx \<and> rx < GRID_W \<and> 0 \<le> ry \<and> ry < GRID_H)"
  shows "update_eat_pellets g = Inr g"
  using assms by (auto simp: update_eat_pellets_def)

lemma update_eat_pellets_lookup:
  assumes "coordinateAbs (movingObjectPacman (engine g)) = (ax, ay)"
    and "coordinateRel (movingObjectPacman (engine g)) = (rx, ry)"
    and "ax mod 4 = 0" "ay mod 4 = 0" "0 \<le> rx" "rx < GRID_W" "0 \<le> ry" "ry < GRID_H"
    and "nat rx < length (levelObjects (engine g))"
    and "nat ry < length (levelObjects (engine g) ! nat rx)"
  shows "update_eat_pellets g =
     (let col = levelObjects (engine g) ! nat rx; obj = col ! nat ry
      in if name obj = ''pellet'' \<and> \<not> isDestroyed obj
         then Inr (g\<lparr>engine := (engine g)\<lparr>levelObjects :=
                         (levelObjects (engine g))
                           [nat rx := col[nat ry := obj\<lparr>isDestroyed := True, name := ''empty''\<rparr>]],
                       levelPelletRemaining := levelPelletRemaining (engine g) - 1\<rparr>,
                  score := score g + 10\<rparr>)
         else Inr g)"
  using assms by (simp add: update_eat_pellets_def Let_def)

lemma grid_indices:
  assumes "length grid = nat GRID_W" and "\<forall>col \<in> set grid. length col = nat GRID_H"
    and "0 \<le> rx" "rx < GRID_W" "0 \<le> ry" "ry < GRID_H"
  shows "nat rx < length grid" and "nat ry < length (grid ! nat rx)"
proof -
  show 1: "nat rx < length grid" using assms by simp
  then have "grid ! nat rx \<in> set grid" by simp
  with assms show "nat ry < length (grid ! nat rx)" by simp
qed

text \<open>
  Claim C6. \<^verbatim>\<open>update\<close> reaches the pellet block only after the collision check of the
  tick has returned \<open>False\<close>. On a grid of \<open>GRID_W\<close> columns of \<open>GRID_H\<close> tiles the block
  never raises. It credits an eat only when both components of the player's absolute
  position are multiples of 4, the relative tile coordinates are inside the grid, and
  the tile there is an undestroyed pellet; otherwise the session is unchanged. An eat
  turns that tile into \<open>empty\<close> and destroyed, leaves every other tile alone, adds
  exactly 10 to the score and takes exactly 1 from the pellet counter; and the block run
  again on the result changes nothing, so the tile is eaten exactly once.
\<close>

theorem update_eat_pellets_effect:
  assumes abs: "coordinateAbs (movingObjectPacman (engine g)) = (ax, ay)"
    and rel: "coordinateRel (movingObjectPacman (engine g)) = (rx, ry)"
    and grid: "length (levelObjects (engine g)) = nat GRID_W"
      "\<forall>col \<in> set (levelObjects (engine g)). length col = nat GRID_H"
  shows "(if ax mod 4 = 0 \<and> ay mod 4 = 0 \<and> 0 \<le> rx \<and> rx < GRID_W \<and> 0 \<le> ry \<and> ry < GRID_H
            \<and> name (levelObjects (engine g) ! nat rx ! nat ry) = ''pellet''
            \<and> \<not> isDestroyed (levelObjects (engine g) ! nat rx ! nat ry)
          then \<exists>g'. update_eat_pellets g = Inr g'
                 \<and> levelObjects (engine g') ! nat rx ! nat ry
                     = \<lparr>name = ''empty'', isDestroyed = True\<rparr>
                 \<and> (\<forall>i j. (i, j) \<noteq> (nat rx, nat ry) \<longrightarrow>
                       levelObjects (engine g') ! i ! j = levelObjects (engine g) ! i ! j)
                 \<and> score g' = score g + 10
                 \<and> levelPelletRemaining (engine g') = levelPelletRemaining (engine g) - 1
                 \<and> lives g' = lives g \<and> level g' = level g
                 \<and> movingObjectPacman (engine g') = movingObjectPacman (engine g)
                 \<and> update_eat_pellets g' = Inr g'
          else update_eat_pellets g = Inr g)"
proof (cases "ax mod 4 = 0 \<and> ay mod 4 = 0 \<and> 0 \<le> rx \<and> rx < GRID_W \<and> 0 \<le> ry \<and> ry < GRID_H")
  case False
  with update_eat_pellets_skip [OF abs rel] show ?thesis by auto
next
  case True
  define grd where "grd = levelObjects (engine g)"
  define col where "col = grd ! nat rx"
  define obj where "obj = col ! nat ry"
  from True grid have ix: "nat rx < length grd" "nat ry < length col"
    unfolding grd_def col_def by (simp_all add: grid_indices)
  from True ix have look: "update_eat_pellets g =
      (if name obj = ''pellet'' \<and> \<not> isDestroyed obj
       then Inr (g\<lparr>engine := (engine g)\<lparr>levelObjects :=
                         grd[nat rx := col[nat ry := obj\<lparr>isDestroyed := True, name := ''empty''\<rparr>]],
                       levelPelletRemaining := levelPelletRemaining (engine g) - 1\<rparr>,
                  score := score g + 10\<rparr>)
       else Inr g)"
    unfolding grd_def col_def obj_def
    by (simp add: update_eat_pellets_lookup [OF abs rel] Let_def)
  show ?thesis
  proof (cases "name obj = ''pellet'' \<and> \<not> isDestroyed obj")
    case False
    with look True show ?thesis by (auto simp: obj_def col_def grd_def)
  next
    case pellet: True
    define g' where "g' = g\<lparr>engine := (engine g)\<lparr>levelObjects :=
                         grd[nat rx := col[nat ry := obj\<lparr>isDestroyed := True, name := ''empty''\<rparr>]],
                       levelPelletRemaining := levelPelletRemaining (engine g) - 1\<rparr>,
                  score := score g + 10\<rparr>"
    have r: "update_eat_pellets g = Inr g'" using look pellet by (simp add: g'_def)
    have tile: "levelObjects (engine g') ! nat rx ! nat ry = \<lparr>name = ''empty'', isDestroyed = True\<rparr>"
      using ix by (simp add: g'_def)
    have others: "levelObjects (engine g') ! i ! j = levelObjects (engine g) ! i ! j"
      if "(i, j) \<noteq> (nat rx, nat ry)" for i j
    proof (cases "i = nat rx")
      case True
      with that ix show ?thesis by (simp add: g'_def grd_def col_def)
    next
      case False
      then show ?thesis by (simp add: g'_def grd_def)
    qed
    have pac: "movingObjectPacman (engine g') = movingObjectPacman (engine g)"
      by (simp add: g'_def)
    have ix': "nat rx < length (levelObjects (engine g'))"
      "nat ry < length (levelObjects (engine g') ! nat rx)"
      using ix by (simp_all add: g'_def)
    have again: "update_eat_pellets g' = Inr g'"
      using True ix' tile abs rel pac
      by (simp add: update_eat_pellets_lookup [of g' ax ay rx ry] Let_def)
    have rest: "score g' = score g + 10"
      "levelPelletRemaining (engine g') = levelPelletRemaining (engine g) - 1"
      "lives g' = lives g" "level g' = level g"
      by (simp_all add: g'_def)
    from True pellet r tile others rest pac again show ?thesis
      unfolding obj_def col_def grd_def by auto
  qed
qed


lemma pellet_board_dims:
  "length pellet_board = nat GRID_W" "\<forall>col \<in> set pellet_board. length col = nat GRID_H"
  by (simp_all add: pellet_board_def GRID_W_def GRID_H_def)

lemma pellet_board_origin: "pellet_board ! 0 ! 0 = \<lparr>name = ''pellet'', isDestroyed = False\<rparr>"
  by (simp add: pellet_board_def GRID_W_def GRID_H_def)

theorem update_eat_pellets_effect_witness:
  "coordinateAbs (movingObjectPacman (engine (playing last_pellet_engine))) = (0, 0)
   \<and> coordinateRel (movingObjectPacman (engine (playing last_pellet_engine))) = (0, 0)
   \<and> length (levelObjects (engine (playing last_pellet_engine))) = nat GRID_W
   \<and> list_all (\<lambda>col. length col = nat GRID_H)
         (levelObjects (engine (playing last_pellet_engine)))
   \<and> (\<exists>g'. update_eat_pellets (playing last_pellet_engine) = Inr g'
          \<and> levelObjects (engine g') ! 0 ! 0 = \<lparr>name = ''empty'', isDestroyed = True\<rparr>
          \<and> score g' = 10 \<and> levelPelletRemaining (engine g') = 0
          \<and> update_eat_pellets g' = Inr g')
   \<and> coordinateAbs (movingObjectPacman (engine (playing idle_engine))) = (1, 1)
   \<and> update_eat_pellets (playing idle_engine) = Inr (playing idle_engine)"
proof -
  let ?g = "playing last_pellet_engine"
  let ?h = "playing idle_engine"
  have a: "coordinateAbs (movingObjectPacman (engine ?g)) = (0, 0)"
    and r: "coordinateRel (movingObjectPacman (engine ?g)) = (0, 0)"
    and b: "levelObjects (engine ?g) = pellet_board"
    and c: "score ?g = 0" "levelPelletRemaining (engine ?g) = 1"
    by (simp_all add: last_pellet_engine_def toy_defs)
  have d: "length (levelObjects (engine ?g)) = nat GRID_W"
    "\<forall>col \<in> set (levelObjects (engine ?g)). length col = nat GRID_H"
    using pellet_board_dims by (simp_all add: b)
  have a': "coordinateAbs (movingObjectPacman (engine ?h)) = (1, 1)"
    and r': "coordinateRel (movingObjectPacman (engine ?h)) = (0, 0)"
    and b': "levelObjects (engine ?h) = pellet_board"
    by (simp_all add: idle_engine_def toy_defs)
  have d': "length (levelObjects (engine ?h)) = nat GRID_W"
    "\<forall>col \<in> set (levelObjects (engine ?h)). length col = nat GRID_H"
    using pellet_board_dims by (simp_all add: b')
  from update_eat_pellets_effect [OF a r d]
  have eat: "\<exists>g'. update_eat_pellets ?g = Inr g'
          \<and> levelObjects (engine g') ! 0 ! 0 = \<lparr>name = ''empty'', isDestroyed = True\<rparr>
          \<and> score g' = 10 \<and> levelPelletRemaining (engine g') = 0
          \<and> update_eat_pellets g' = Inr g'"
    by (simp add: b c pellet_board_origin GRID_W_def GRID_H_def) blast
  from update_eat_pellets_effect [OF a' r' d']
  have skip: "update_eat_pellets ?h = Inr ?h" by simp
  from d(2) have d2: "list_all (\<lambda>col. length col = nat GRID_H) (levelObjects (engine ?g))"
    by (simp add: list_all_iff)
  from a r d(1) d2 eat a' skip show ?thesis by blast
qed

subsection \<open>The tick loop\<close>

lemma update_eat_pellets_frame:
  assumes "update_eat_pellets g = Inr g'"
  shows "lives g' = lives g \<and> game_over g' = game_over g \<and> level g' = level g
         \<and> state g' = state g"
  using assms
  by (auto simp: update_eat_pellets_def Let_def split: prod.splits if_splits)

lemma lose_life_frame:
  "lives (snd (lose_life env g)) = lives g - 1
   \<and> game_over (snd (lose_life env g)) = (game_over g \<or> lives g - 1 < 0)
   \<and> level (snd (lose_life env g)) = level g
   \<and> state (snd (lose_life env g)) = state g
   \<and> score (snd (lose_life env g)) = score g"
  by (simp add: lose_life_def Let_def)

lemma update_loop_body_frame:
  assumes "update_loop_body env g = Inr (returned, g')"
  shows "level g' = level g \<and> state g' = state g
         \<and> (if returned
             then lives g' = lives g - 1 \<and> game_over g' = (game_over g \<or> lives g - 1 < 0)
             else lives g' = lives g \<and> game_over g' = game_over g)"
proof -
  define g1 where "g1 = g\<lparr>engine := loopFunction env (engine g)\<rparr>"
  define pp where "pp = coordinateAbs (movingObjectPacman (engine g))"
  define gp where "gp = map coordinateAbs (movingObjectGhosts (engine g))"
  have g1: "lives g1 = lives g" "game_over g1 = game_over g" "level g1 = level g"
    "state g1 = state g"
    by (simp_all add: g1_def)
  from assms obtain b g2 where chk: "check_ghost_collision env g1 pp gp = Inr (b, g2)"
    and rest: "(if b then Inr (True, g2)
                else case update_eat_pellets g2 of Inl err \<Rightarrow> Inl err
                     | Inr g3 \<Rightarrow> Inr (False, g3)) = Inr (returned, g')"
    by (auto simp: update_loop_body_def Let_def g1_def pp_def gp_def
             split: sum.splits bool.splits)
  from chk have eff: "(b \<longrightarrow> g2 = snd (lose_life env g1)) \<and> (\<not> b \<longrightarrow> g2 = g1)"
    unfolding check_ghost_collision_def by (rule check_ghosts_result)
  show ?thesis
  proof (cases b)
    case True
    with rest eff have "returned" "g' = snd (lose_life env g1)" by simp_all
    then show ?thesis using lose_life_frame [of env g1] g1 by simp
  next
    case False
    with rest eff have "\<not> returned" "update_eat_pellets g1 = Inr g'"
      by (auto split: sum.splits)
    then show ?thesis using update_eat_pellets_frame [of g1 g'] g1 by simp
  qed
qed

text \<open>A tick that ends in a collision credits no pellet.\<close>

lemma collision_tick_keeps_score:
  assumes "update_loop_body env g = Inr (True, g')"
  shows "score g' = score g"
proof -
  define g1 where "g1 = g\<lparr>engine := loopFunction env (engine g)\<rparr>"
  from assms obtain b g2 where
    chk: "check_ghosts env g1 (coordinateAbs (movingObjectPacman (engine g1)))
            (coordinateAbs (movingObjectPacman (engine g)))
            (map coordinateAbs (movingObjectGhosts (engine g))) 0
            (movingObjectGhosts (engine g1)) = Inr (b, g2)"
    and rest: "b \<and> g' = g2"
    by (auto simp: update_loop_body_def check_ghost_collision_def Let_def g1_def
             split: sum.splits bool.splits)
  from check_ghosts_result [OF chk] rest have "g' = snd (lose_life env g1)" by simp
  then show ?thesis using lose_life_frame [of env g1] by (simp add: g1_def)
qed

lemma update_loop_frame:
  fixes g :: "'e game"
  assumes ret: "update_loop env g steps = Some (Inr g')"
  shows "level g' = level g \<and> state g' = state g
         \<and> (lives g' = lives g \<and> game_over g' = game_over g
            \<or> lives g' = lives g - 1 \<and> game_over g' = (game_over g \<or> lives g - 1 < 0))"
proof -
  have "\<forall>h'. (Inr g' :: error + 'e game) = Inr h' \<longrightarrow>
          level h' = level g \<and> state h' = state g
          \<and> (lives h' = lives g \<and> game_over h' = game_over g
             \<or> lives h' = lives g - 1 \<and> game_over h' = (game_over g \<or> lives g - 1 < 0))"
  proof (rule update_loop.raw_induct
      [where P = "\<lambda>e (h :: 'e game) s r. \<forall>h'. r = Inr h' \<longrightarrow>
          level h' = level h \<and> state h' = state h
          \<and> (lives h' = lives h \<and> game_over h' = game_over h
             \<or> lives h' = lives h - 1 \<and> game_over h' = (game_over h \<or> lives h - 1 < 0))",
       OF _ ret])
    fix f e h s r
    assume IH: "\<And>e h s r. f e h s = Some r \<Longrightarrow> \<forall>h'. r = Inr h' \<longrightarrow>
          level h' = level h \<and> state h' = state h
          \<and> (lives h' = lives h \<and> game_over h' = game_over h
             \<or> lives h' = lives h - 1 \<and> game_over h' = (game_over h \<or> lives h - 1 < 0))"
      and unfolded:
        "(if engine_dt h \<le> engine_accum h \<and> s < max_steps
          then case update_loop_body e h of
                 Inl err \<Rightarrow> Some (Inl err)
               | Inr (returned, g') \<Rightarrow> if returned then Some (Inr g') else f e g' s
          else Some (Inr h)) = Some r"
    show "\<forall>h'. r = Inr h' \<longrightarrow>
          level h' = level h \<and> state h' = state h
          \<and> (lives h' = lives h \<and> game_over h' = game_over h
             \<or> lives h' = lives h - 1 \<and> game_over h' = (game_over h \<or> lives h - 1 < 0))"
    proof (intro allI impI)
      fix h'
      assume r: "r = Inr h'"
      show "level h' = level h \<and> state h' = state h
          \<and> (lives h' = lives h \<and> game_over h' = game_over h
             \<or> lives h' = lives h - 1 \<and> game_over h' = (game_over h \<or> lives h - 1 < 0))"
      proof (cases "engine_dt h \<le> engine_accum h \<and> s < max_steps")
        case False
        with unfolded r show ?thesis by simp
      next
        case True
        with unfolded r obtain returned h2 where
          body: "update_loop_body e h = Inr (returned, h2)"
          and cont: "(if returned then Some (Inr h2) else f e h2 s) = Some (Inr h')"
          by (auto split: sum.splits prod.splits)
        note fr = update_loop_body_frame [OF body]
        show ?thesis
        proof (cases returned)
          case True
          with cont have "h' = h2" by simp
          with fr True show ?thesis by simp
        next
          case False
          with cont have "f e h2 s = Some (Inr h')" by simp
          from IH [OF this] fr False show ?thesis by simp
        qed
      qed
    qed
  qed
  then show ?thesis by simp
qed

lemma update_frame:
  assumes "update env g dt = Some (Inr g')"
  shows "level g' = level g \<and> state g' = state g
         \<and> (lives g' = lives g \<and> game_over g' = game_over g
            \<or> \<not> game_over g \<and> lives g' = lives g - 1 \<and> game_over g' = (lives g - 1 < 0))"
proof (cases "game_over g \<or> state g \<noteq> PLAY")
  case True
  with assms show ?thesis by (simp add: update_def)
next
  case False
  with assms have "update_loop env (g\<lparr>anim_t := anim_t g + dt,
      engine_accum := engine_accum g + dt\<rparr>) 0 = Some (Inr g')"
    by (simp add: update_def Let_def)
  from update_loop_frame [OF this] False show ?thesis by auto
qed

text \<open>
  A session that one pass through the loop body leaves as it is, with the loop
  condition true, keeps the loop running: no call of \<open>update_loop\<close> on it returns.
\<close>

lemma update_loop_Some_not_stuck:
  assumes ret: "update_loop env' g' steps' = Some r"
    and body: "update_loop_body env g = Inr (False, g)"
    and cond: "engine_dt g \<le> engine_accum g" "steps < max_steps"
  shows "\<not> (env' = env \<and> g' = g \<and> steps' = steps)"
proof (rule update_loop.raw_induct
    [where P = "\<lambda>e' h' s' r'. \<not> (e' = env \<and> h' = g \<and> s' = steps)", OF _ ret])
  fix f e' h' s' r'
  assume IH: "\<And>e h s r. f e h s = Some r \<Longrightarrow> \<not> (e = env \<and> h = g \<and> s = steps)"
    and unfolded:
      "(if engine_dt h' \<le> engine_accum h' \<and> s' < max_steps
        then case update_loop_body e' h' of
               Inl err \<Rightarrow> Some (Inl err)
             | Inr (returned, g') \<Rightarrow> if returned then Some (Inr g') else f e' g' s'
        else Some (Inr h')) = Some r'"
  show "\<not> (e' = env \<and> h' = g \<and> s' = steps)"
  proof
    assume "e' = env \<and> h' = g \<and> s' = steps"
    with unfolded body cond have "f env g steps = Some r'" by simp
    from IH [OF this] show False by simp
  qed
qed

lemma update_loop_stuck:
  assumes "update_loop_body env g = Inr (False, g)"
    and "engine_dt g \<le> engine_accum g" and "steps < max_steps"
  shows "update_loop env g steps = None"
proof (cases "update_loop env g steps")
  case None
  then show ?thesis .
next
  case (Some r)
  from update_loop_Some_not_stuck [OF Some assms] show ?thesis by simp
qed

text \<open>
  Claim C7, at the input of the claim. The session is in play with an empty accumulator,
  the fixed tick duration is \<open>1 / 10\<close>, the real delta is \<open>1\<close>, ten tick durations, and
  the cap is 5. The engine has no pursuer and the player stands off the tile centres, so
  no tick collides or eats. The call does not run 5 ticks and return with 5 tick
  durations left: the loop body never adds to \<^verbatim>\<open>steps\<close> and never takes a tick duration
  from \<^verbatim>\<open>self.engine_accum\<close>, the loop condition stays true, and the call never returns.
\<close>

theorem tick_cap_never_reached:
  "engine_accum (playing idle_engine) = 0
   \<and> 1 = 10 * engine_dt (playing idle_engine)
   \<and> max_steps = 5
   \<and> update (toy_env idle_engine) (playing idle_engine) 1 = None"
proof -
  let ?g = "(playing idle_engine)\<lparr>anim_t := 1, engine_accum := 1\<rparr>"
  have body: "update_loop_body (toy_env idle_engine) ?g = Inr (False, ?g)"
    by (simp add: update_loop_body_def check_ghost_collision_def update_eat_pellets_def
          idle_engine_def toy_defs)
  have "update_loop (toy_env idle_engine) ?g 0 = None"
    by (rule update_loop_stuck [OF body]) (simp_all add: toy_defs max_steps_def)
  then have "update (toy_env idle_engine) (playing idle_engine) 1 = None"
    by (simp add: update_def toy_defs)
  then show ?thesis by (simp add: toy_defs max_steps_def)
qed

subsection \<open>Level advance\<close>

text \<open>
  The procedure \<^verbatim>\<open>_advance_level\<close> by itself: the level index goes up by one, or back to
  1 when the next level file is missing; a fresh engine for that index is installed with
  the player active; the time budget is 0; score and lives stay.
\<close>

lemma advance_level_effect:
  "advance_level env g =
     g\<lparr>level := (if level_file_exists env (level g + 1) then level g + 1 else 1),
       engine := (levelGenerate env (if level_file_exists env (level g + 1) then level g + 1 else 1)
                    ((GameEngine env)\<lparr>levelPelletRemaining := 0\<rparr>))
                 \<lparr>movingObjectPacman :=
                    (movingObjectPacman
                       (levelGenerate env
                          (if level_file_exists env (level g + 1) then level g + 1 else 1)
                          ((GameEngine env)\<lparr>levelPelletRemaining := 0\<rparr>)))
                      \<lparr>isActive := True\<rparr>\<rparr>,
       engine_accum := 0\<rparr>"
  by (simp add: advance_level_def Let_def)

lemma body_last: "update_loop_body (toy_env last_pellet_engine) (playing last_pellet_engine)
       = Inr (False, cleared)"
    by (simp add: update_loop_body_def check_ghost_collision_def update_eat_pellets_def
          last_pellet_engine_def toy_defs cleared_def GRID_W_def GRID_H_def pellet_board_def Let_def)

text \<open>
  Claim C2, at an input where the claim promises a level advance. The player stands on
  the last pellet of level 1. The tick eats it, the counter reaches 0, and the tick ends
  with the loop still running (\<open>False\<close>), the level index still 1 and the old engine
  with its counter at 0 still installed: line 368 tests the counter and does nothing.
  \<^verbatim>\<open>_advance_level\<close> would have set the level index to 2. By \<open>update_frame\<close> no call of
  \<^verbatim>\<open>update\<close> that returns changes the level index.
\<close>

theorem level_clear_does_not_advance:
  "levelPelletRemaining (engine (playing last_pellet_engine)) = 1
   \<and> update_loop_body (toy_env last_pellet_engine) (playing last_pellet_engine)
       = Inr (False, cleared)
   \<and> levelPelletRemaining (engine cleared) = 0
   \<and> level cleared = 1
   \<and> level (advance_level (toy_env last_pellet_engine) cleared) = 2"
  using body_last
  by (simp add: cleared_def advance_level_def last_pellet_engine_def toy_defs Let_def)

subsection \<open>Restart\<close>

text \<open>
  Every mouse-button event that \<^verbatim>\<open>pygame.event.get()\<close> delivers carries its position,
  and \<^verbatim>\<open>main\<close> passes no other events to the handler: a pointer press or release is
  \<open>MOUSEBUTTONDOWN (Some p)\<close> or \<open>MOUSEBUTTONUP (Some p)\<close>. The guard
  \<^verbatim>\<open>hasattr(e, "pos")\<close> of line 191 is therefore true of every pointer event the
  program receives. An event object built without the attribute would pass the guard
  by: the handler would leave the session as it is.
\<close>

lemma positionless_pointer_event_swallowed:
  "game_over g \<Longrightarrow>
     handle_event env g (MOUSEBUTTONDOWN None) = Inr g
     \<and> handle_event env g (MOUSEBUTTONUP None) = Inr g"
  by (simp add: handle_event_def)

text \<open>
  Claim C8. From a session that is over, any confirm key (Enter or Space), any pointer
  press or release, with the position \<open>p\<close> it carries, or any touch press makes the
  handler return the session with score 0, lives 2, level index 1, the game-over flag
  cleared, a fresh engine generated for level 1 with the player active, the time budget
  0 and the machine state \<open>TITLE\<close>.
\<close>

theorem restart_from_game_over:
  assumes "game_over g"
    and "e = KEYDOWN K_RETURN \<or> e = KEYDOWN K_SPACE \<or> e = MOUSEBUTTONDOWN (Some p)
         \<or> e = MOUSEBUTTONUP (Some p) \<or> e = FINGERDOWN x y"
  shows "handle_event env g e =
     Inr (g\<lparr>score := 0, lives := 2, level := 1, game_over := False,
            engine := (levelGenerate env 1 (GameEngine env))
              \<lparr>movingObjectPacman :=
                 (movingObjectPacman (levelGenerate env 1 (GameEngine env)))
                   \<lparr>isActive := True\<rparr>\<rparr>,
            engine_accum := 0, state := TITLE\<rparr>)"
  using assms by (auto simp: handle_event_def reset_game_def Let_def)

theorem restart_from_game_over_witness:
  "game_over over \<and> score over = 70 \<and> lives over = - 1 \<and> level over = 2
   \<and> handle_event (toy_env overlap_engine) over (KEYDOWN K_RETURN)
       = Inr (init (toy_env overlap_engine))
   \<and> handle_event (toy_env overlap_engine) over (KEYDOWN K_SPACE)
       = Inr (init (toy_env overlap_engine))
   \<and> handle_event (toy_env overlap_engine) over (MOUSEBUTTONDOWN (Some (3, 4)))
       = Inr (init (toy_env overlap_engine))
   \<and> handle_event (toy_env overlap_engine) over (MOUSEBUTTONUP (Some (3, 4)))
       = Inr (init (toy_env overlap_engine))
   \<and> handle_event (toy_env overlap_engine) over (FINGERDOWN (1 / 2) (1 / 2))
       = Inr (init (toy_env overlap_engine))"
proof -
  let ?E = "toy_env overlap_engine"
  have go: "game_over over" by (simp add: over_def)
  have fresh: "over\<lparr>score := 0, lives := 2, level := 1, game_over := False,
            engine := (levelGenerate ?E 1 (GameEngine ?E))
              \<lparr>movingObjectPacman :=
                 (movingObjectPacman (levelGenerate ?E 1 (GameEngine ?E)))
                   \<lparr>isActive := True\<rparr>\<rparr>,
            engine_accum := 0, state := TITLE\<rparr> = init ?E"
    by (simp add: over_def toy_defs)
  have 1: "handle_event ?E over (KEYDOWN K_RETURN) = Inr (init ?E)"
    using restart_from_game_over [OF go, of "KEYDOWN K_RETURN" _ _ _ ?E] fresh by simp
  have 2: "handle_event ?E over (KEYDOWN K_SPACE) = Inr (init ?E)"
    using restart_from_game_over [OF go, of "KEYDOWN K_SPACE" _ _ _ ?E] fresh by simp
  have 3: "handle_event ?E over (MOUSEBUTTONDOWN (Some (3, 4))) = Inr (init ?E)"
    using restart_from_game_over [OF go, of "MOUSEBUTTONDOWN (Some (3, 4))" "(3, 4)" _ _ ?E]
      fresh by simp
  have 4: "handle_event ?E over (MOUSEBUTTONUP (Some (3, 4))) = Inr (init ?E)"
    using restart_from_game_over [OF go, of "MOUSEBUTTONUP (Some (3, 4))" "(3, 4)" _ _ ?E]
      fresh by simp
  have 5: "handle_event ?E over (FINGERDOWN (1 / 2) (1 / 2)) = Inr (init ?E)"
    using restart_from_game_over [OF go, of "FINGERDOWN (1 / 2) (1 / 2)" _ "1 / 2" "1 / 2" ?E]
      fresh by simp
  from go 1 2 3 4 5 show ?thesis by (simp add: over_def)
qed

subsection \<open>Lives\<close>

lemma handle_event_lives:
  assumes "handle_event env g e = Inr g'"
  shows "lives g' = lives g \<and> game_over g' = game_over g
         \<or> game_over g \<and> lives g' = 2 \<and> \<not> game_over g'"
proof -
  have go: "lives (handle_event_game_over env g e) = lives g
              \<and> game_over (handle_event_game_over env g e) = game_over g
            \<or> lives (handle_event_game_over env g e) = 2
              \<and> \<not> game_over (handle_event_game_over env g e)"
    by (cases e) (simp_all add: reset_game_def Let_def)
  have ti: "lives (handle_event_title g e) = lives g
            \<and> game_over (handle_event_title g e) = game_over g"
    by (cases e) (simp_all add: Let_def split: option.splits)
  have pl: "handle_event_play g e = Inr g' \<Longrightarrow> lives g' = lives g \<and> game_over g' = game_over g"
    by (cases e) (auto simp: set_dirNext_def split: if_splits option.splits)
  from assms go ti pl show ?thesis
    by (auto simp: handle_event_def split: if_splits)
qed

lemma reachable_lives:
  assumes "reachable env g"
  shows "- 1 \<le> lives g \<and> (\<not> game_over g \<longrightarrow> 0 \<le> lives g)"
  using assms
proof (induction rule: reachable.induct)
  case start
  show ?case by (simp add: init_def Let_def)
next
  case (event g e g')
  from handle_event_lives [OF event.hyps(2)] event.IH show ?case by auto
next
  case (frame g dt g')
  from update_frame [OF frame.hyps(2)] frame.IH show ?case by auto
qed

text \<open>
  Claim C10. In every reachable session \<open>lives\<close> is at least -1, and it is negative only
  when the game-over flag is set. The life-loss procedure takes exactly 1 from \<open>lives\<close>.
  With the flag set \<^verbatim>\<open>update\<close> returns the session as it is. A call of \<^verbatim>\<open>update\<close> that
  returns leaves \<open>lives\<close> as it was or takes exactly 1 from it (the one life-loss that
  ends the call), and the event handler leaves \<open>lives\<close> as it was, except that a restart
  from a session that is over sets it to 2.
\<close>

theorem lives_never_below_minus_one:
  "(reachable env g \<longrightarrow> - 1 \<le> lives g \<and> (lives g < 0 \<longrightarrow> game_over g))
   \<and> lives (snd (lose_life env g)) = lives g - 1
   \<and> (game_over g \<longrightarrow> update env g dt = Some (Inr g))
   \<and> (update env g dt = Some (Inr g') \<longrightarrow> lives g' = lives g \<or> lives g' = lives g - 1)
   \<and> (handle_event env g e = Inr g'' \<longrightarrow>
        lives g'' = lives g \<or> game_over g \<and> lives g'' = 2)"
proof (intro conjI impI)
  assume "reachable env g"
  from reachable_lives [OF this] show "- 1 \<le> lives g" by simp
next
  assume "reachable env g" and "lives g < 0"
  with reachable_lives [of env g] show "game_over g" by auto
next
  show "lives (snd (lose_life env g)) = lives g - 1" by (simp add: lose_life_frame)
next
  assume "game_over g"
  then show "update env g dt = Some (Inr g)" by (simp add: update_def)
next
  assume "update env g dt = Some (Inr g')"
  from update_frame [OF this] show "lives g' = lives g \<or> lives g' = lives g - 1" by auto
next
  assume "handle_event env g e = Inr g''"
  from handle_event_lives [OF this] show "lives g'' = lives g \<or> game_over g \<and> lives g'' = 2"
    by auto
qed

text \<open>
  The bound is reached: with a pursuer on the player's start position, starting the game
  and three frames of one tick each lose the three lives.
\<close>

lemma update_collision_tick:
  assumes "\<not> game_over g" and "state g = PLAY" and "engine_dt g \<le> engine_accum g + dt"
    and "update_loop_body env (g\<lparr>anim_t := anim_t g + dt, engine_accum := engine_accum g + dt\<rparr>)
           = Inr (True, g')"
  shows "update env g dt = Some (Inr g')"
  using assms unfolding update_def Let_def
  by (subst update_loop.simps) (simp add: max_steps_def)

lemma hurt_tick:
  "0 < n \<Longrightarrow> update (toy_env overlap_engine) (hurt n t) (1 / 10) = Some (Inr (hurt (n - 1) (t + 1 / 10)))"
  by (rule update_collision_tick)
     (simp_all add: hurt_def update_loop_body_def check_ghost_collision_def overlap_engine_def toy_defs
        lose_life_def ghost_catches_overlap [where dx = 0] wrap_dist_x_def dist_y_def W_ABS_def GRID_W_def)

lemma last_tick:
  "update (toy_env overlap_engine) (hurt 0 (2 / 10)) (1 / 10) = Some (Inr dead)"
  by (rule update_collision_tick)
     (simp_all add: hurt_def dead_def update_loop_body_def check_ghost_collision_def overlap_engine_def toy_defs
        lose_life_def ghost_catches_overlap [where dx = 0] wrap_dist_x_def dist_y_def W_ABS_def GRID_W_def)

theorem lives_never_below_minus_one_witness:
  "reachable (toy_env overlap_engine) dead \<and> lives dead = - 1 \<and> game_over dead
   \<and> update (toy_env overlap_engine) dead (1 / 10) = Some (Inr dead)
   \<and> handle_event (toy_env overlap_engine) dead OTHER_EVENT = Inr dead"
proof -
  let ?E = "toy_env overlap_engine"
  have "handle_event ?E (init ?E) (KEYDOWN K_RETURN) = Inr (hurt 2 0)"
    by (simp add: handle_event_def hurt_def toy_defs)
  from reachable.event [OF reachable.start this] have "reachable ?E (hurt 2 0)" .
  from reachable.frame [OF this hurt_tick] have "reachable ?E (hurt 1 (1 / 10))" by simp
  from reachable.frame [OF this hurt_tick] have "reachable ?E (hurt 0 (2 / 10))" by simp
  from reachable.frame [OF this last_tick] have r: "reachable ?E dead" .
  have go: "game_over dead" and l: "lives dead = - 1" by (simp_all add: dead_def)
  have ev: "handle_event ?E dead OTHER_EVENT = Inr dead"
    by (simp add: handle_event_def dead_def)
  from lives_never_below_minus_one [of ?E dead "1 / 10" dead OTHER_EVENT dead] r go l ev
  show ?thesis by simp
qed

end
